theory Spec2Isabelle
  imports Main
begin

section \<open>Data model of the needs builders (sphinx\_needs/builder.py)\<close>

text \<open>
  A need record is a mapping with an \<open>id\<close> field and further descriptive fields. The
  builders only read \<open>need["id"]\<close>; everything else is carried along unchanged.
\<close>

record need =
  need_id :: string
  need_fields :: "(string \<times> string) list"

text \<open>A filter record: the builders read \<open>need_filter["export_id"]\<close> only.\<close>

record need_filter =
  export_id :: string
  filter_fields :: "(string \<times> string) list"

text \<open>
  A diagram record: \<open>needuml["save"]\<close> is a path or \<open>None\<close>,
  \<open>needuml["content_calculated"]\<close> the rendered text.
\<close>

record needuml =
  save :: "string option"
  content_calculated :: string

text \<open>
  The typed configuration view \<open>NeedsSphinxConfig(env.config)\<close> together with the one
  attribute of the host configuration that is read, \<open>env.config.version\<close>, which may be
  absent (\<open>getattr(env.config, "version", "unset")\<close>).
\<close>

record config =
  version :: "string option"
  needs_file :: "string option"
  builder_filter :: string
  build_json :: bool
  build_json_per_id :: bool
  build_json_per_id_path :: string
  build_needumls :: string

text \<open>
  The build environment: the configuration, the documents found, and the registry
  \<open>SphinxNeedsData(env)\<close> with its three dictionaries. A Python dictionary keeps
  insertion order, so each is an association list and \<open>.values()\<close> is \<open>map snd\<close>.
\<close>

record environment =
  env_config :: config
  found_docs :: "string set"
  env_needs :: "(string \<times> need) list"
  env_filters :: "(string \<times> need_filter) list"
  env_umls :: "(string \<times> needuml) list"

definition dict_values :: "('k \<times> 'v) list \<Rightarrow> 'v list" where
  "dict_values d = map snd d"

text \<open>The builder classes of the module; \<open>OtherBuilder\<close> is any builder of the host.\<close>

datatype builder_class =
  NeedsBuilderBase | NeedsBuilder | NeedumlsBuilder | NeedsIdBuilder | OtherBuilder

record builder =
  cls :: builder_class
  env :: environment
  outdir :: string
  srcdir :: string

subsection \<open>Python truthiness\<close>

definition truthy_str :: "string \<Rightarrow> bool" where
  "truthy_str s = (s \<noteq> [])"

definition truthy_opt :: "string option \<Rightarrow> bool" where
  "truthy_opt s = (case s of None \<Rightarrow> False | Some p \<Rightarrow> truthy_str p)"

section \<open>The builder base\<close>

text \<open>
  Class attribute \<open>skip_write_phase\<close>: \<open>True\<close> in \<open>NeedsBuilderBase\<close>, overridden to
  \<open>False\<close> by \<open>NeedsBuilder\<close> only; the other subclasses inherit it.
\<close>

fun skip_write_phase :: "builder_class \<Rightarrow> bool" where
  "skip_write_phase NeedsBuilder = False"
| "skip_write_phase _ = True"

text \<open>\<open>get_outdated_docs\<close> returns \<open>self.env.found_docs\<close>.\<close>

definition get_outdated_docs :: "builder \<Rightarrow> string set" where
  "get_outdated_docs b = found_docs (env b)"

definition get_target_uri :: "builder \<Rightarrow> string \<Rightarrow> string option \<Rightarrow> string" where
  "get_target_uri b docname typ = []"

text \<open>
  \<open>write\<close>: returns at once when \<open>skip_write_phase\<close> holds, and otherwise hands its
  arguments to the write phase of the host's \<open>Builder\<close>. The host's write phase is not
  part of this module, so it is a parameter \<open>super_write\<close> acting on a state \<open>'s\<close>.
\<close>

definition builder_write ::
  "(string list option \<Rightarrow> string list \<Rightarrow> string \<Rightarrow> 's \<Rightarrow> 's) \<Rightarrow> builder \<Rightarrow>
   string list option \<Rightarrow> string list \<Rightarrow> string \<Rightarrow> 's \<Rightarrow> 's" where
  "builder_write super_write b build_docnames updated_docnames method s =
     (if skip_write_phase (cls b) then s
      else super_write build_docnames updated_docnames method s)"

section \<open>The world the builders act on\<close>

text \<open>
  One version's entry of the exported document: the need records valid for the version
  and the exported filter definitions.
\<close>

record version_entry =
  needs :: "need list"
  filters :: "need_filter list"

text \<open>
  A file holds either a JSON needs document (its entries keyed by version, in the
  order of the dictionary) or plain text.
\<close>

datatype file_content =
  JsonDoc "(string \<times> version_entry) list"
| Text string

datatype level = INFO | ERROR

datatype exn = WriteError string | TypeError string | NotImplementedError string

fun str :: "exn \<Rightarrow> string" where
  "str (WriteError m) = m"
| "str (TypeError m) = m"
| "str (NotImplementedError m) = m"

text \<open>
  The state outside the program: the files and directories on disk, the history of the
  file writes in the order they happened, the messages sent to the logger, and what the
  operating system refuses. \<open>write_raises p c\<close> is the message of the exception raised
  when \<open>c\<close> is written to \<open>p\<close> (an I/O or a serialization error), \<open>makedirs_raises p\<close>
  that of \<open>os.makedirs(p, exist_ok=True)\<close>; \<open>None\<close> when the call succeeds. A write
  that raises leaves the disk as it was.
\<close>

record world =
  files :: "string \<Rightarrow> file_content option"
  dirs :: "string set"
  written :: "(string \<times> file_content) list"
  logged :: "(level \<times> string) list"
  write_raises :: "string \<Rightarrow> file_content \<Rightarrow> string option"
  makedirs_raises :: "string \<Rightarrow> string option"

definition log_info :: "string \<Rightarrow> world \<Rightarrow> world" where
  "log_info msg w = w\<lparr>logged := logged w @ [(INFO, msg)]\<rparr>"

definition log_error :: "string \<Rightarrow> world \<Rightarrow> world" where
  "log_error msg w = w\<lparr>logged := logged w @ [(ERROR, msg)]\<rparr>"

subsection \<open>\<open>os.path\<close> and file operations\<close>

text \<open>\<open>os.path.join(a, b)\<close> of \<open>posixpath\<close>, for two components.\<close>

definition join :: "string \<Rightarrow> string \<Rightarrow> string" where
  "join a b =
     (if b \<noteq> [] \<and> hd b = CHR ''/'' then b
      else if a = [] \<or> last a = CHR ''/'' then a @ b
      else a @ ''/'' @ b)"

text \<open>
  \<open>os.path.dirname(p)\<close> of \<open>posixpath\<close>: the part up to the last slash, with its
  trailing slashes removed unless it consists of slashes only.
\<close>

definition dirname :: "string \<Rightarrow> string" where
  "dirname p =
     (let head = rev (dropWhile (\<lambda>c. c \<noteq> CHR ''/'') (rev p)) in
      if head \<noteq> [] \<and> dropWhile (\<lambda>c. c = CHR ''/'') head \<noteq> []
      then rev (dropWhile (\<lambda>c. c = CHR ''/'') (rev head))
      else head)"

definition exists :: "world \<Rightarrow> string \<Rightarrow> bool" where
  "exists w p = (p \<in> dom (files w) \<or> p \<in> dirs w)"

text \<open>A path with the chain of its parent directories, up to the root or the empty path.\<close>

function ancestors :: "string \<Rightarrow> string list" where
  "ancestors p = (if dirname p = p then [p] else p # ancestors (dirname p))"
  by pat_completeness auto
termination
proof (relation "measure length")
  show "wf (measure length)" by simp
next
  fix p :: string
  assume ne: "dirname p \<noteq> p"
  have strip: "\<exists>s. h = rev (dropWhile P (rev h)) @ s" for P and h :: string
  proof -
    have "rev (dropWhile P (rev h)) @ rev (takeWhile P (rev h))
          = rev (takeWhile P (rev h) @ dropWhile P (rev h))"
      by (simp only: rev_append)
    also have "\<dots> = rev (rev h)" by (simp only: takeWhile_dropWhile_id)
    also have "\<dots> = h" by (simp only: rev_rev_ident)
    finally have "h = rev (dropWhile P (rev h)) @ rev (takeWhile P (rev h))" by (rule sym)
    then show ?thesis ..
  qed
  define h where "h = rev (dropWhile (\<lambda>c. c \<noteq> CHR ''/'') (rev p))"
  obtain t where p: "p = h @ t" unfolding h_def using strip by blast
  obtain s where h: "h = rev (dropWhile (\<lambda>c. c = CHR ''/'') (rev h)) @ s"
    using strip by blast
  have "\<exists>u. p = dirname p @ u"
  proof (cases "h \<noteq> [] \<and> dropWhile (\<lambda>c. c = CHR ''/'') h \<noteq> []")
    case True
    then have d: "dirname p = rev (dropWhile (\<lambda>c. c = CHR ''/'') (rev h))"
      unfolding dirname_def Let_def h_def [symmetric] by simp
    have "h @ t = (dirname p @ s) @ t" unfolding d using h by (rule arg_cong)
    then have "h @ t = dirname p @ (s @ t)" by (simp only: append_assoc)
    then have "p = dirname p @ (s @ t)" using p by (simp only:)
    then show ?thesis ..
  next
    case False
    then have dh: "dirname p = h"
      unfolding dirname_def Let_def h_def [symmetric] by auto
    have "p = dirname p @ t" unfolding dh by (rule p)
    then show ?thesis ..
  qed
  then obtain u where u: "p = dirname p @ u" ..
  have "u \<noteq> []"
  proof
    assume e: "u = []"
    have "p = dirname p @ u" by (rule u)
    also have "\<dots> = dirname p" unfolding e by simp
    finally have "dirname p = p" by (rule sym)
    with ne show False by (rule notE)
  qed
  then have "length (dirname p) < length (dirname p @ u)" by simp
  moreover have "length p = length (dirname p @ u)" using u by (rule arg_cong)
  ultimately have "length (dirname p) < length p" by (simp only:)
  then show "(dirname p, p) \<in> measure length" by simp
qed

declare ancestors.simps [simp del]

text \<open>
  \<open>os.makedirs(p, exist_ok=True)\<close>: creates \<open>p\<close> and every missing parent directory,
  or raises; it always raises on the empty path.
\<close>

definition makedirs :: "string \<Rightarrow> world \<Rightarrow> exn + world" where
  "makedirs p w =
     (case (if p = [] then Some ''[Errno 2] No such file or directory'' else makedirs_raises w p) of
        Some m \<Rightarrow> Inl (WriteError m)
      | None \<Rightarrow> Inr (w\<lparr>dirs := dirs w \<union> set (filter (\<lambda>d. d \<noteq> []) (ancestors p))\<rparr>))"

text \<open>When \<open>os.makedirs(p, exist_ok=True)\<close> succeeds.\<close>

definition makedirs_ok :: "world \<Rightarrow> string \<Rightarrow> bool" where
  "makedirs_ok w p = (p \<noteq> [] \<and> makedirs_raises w p = None)"

text \<open>\<open>with open(p, "w") as f: f.write(c)\<close>.\<close>

definition write_file :: "string \<Rightarrow> file_content \<Rightarrow> world \<Rightarrow> exn + world" where
  "write_file p c w =
     (case write_raises w p c of
        Some m \<Rightarrow> Inl (WriteError m)
      | None \<Rightarrow> Inr (w\<lparr>files := (files w)(p \<mapsto> c), written := written w @ [(p, c)]\<rparr>))"

section \<open>Collaborators that are not part of this module\<close>

text \<open>
  Modelled from the spec: the list serializer \<open>NeedsList\<close> of sphinx\_needs/needsfile.py,
  which is not among the sources. It accumulates need records tagged by a version label
  in a structure mirroring a previously written JSON file: a document keyed by version,
  each version mapping to the need records valid for it plus any exported filters. A new
  list is empty.
\<close>

record needs_list =
  nl_config :: config
  nl_outdir :: string
  nl_confdir :: string
  versions :: "(string \<times> version_entry) list"

definition NeedsList :: "config \<Rightarrow> string \<Rightarrow> string \<Rightarrow> needs_list" where
  "NeedsList cfg out conf =
     \<lparr>nl_config = cfg, nl_outdir = out, nl_confdir = conf, versions = []\<rparr>"

text \<open>
  Modelled from the spec: \<open>NeedsList.load_json\<close>, which is not among the sources. It
  loads a needs file as the base state to merge into; a missing prior state file is
  tolerated and treated as empty. A file that holds no needs document is treated the
  same way here.
\<close>

definition load_json :: "needs_list \<Rightarrow> string \<Rightarrow> world \<Rightarrow> needs_list" where
  "load_json nl f w =
     (case files w f of
        Some (JsonDoc vs) \<Rightarrow> nl\<lparr>versions := vs\<rparr>
      | _ \<Rightarrow> nl)"

text \<open>
  Modelled from the spec: \<open>NeedsList.wipe_version\<close>, which is not among the sources. It
  removes any existing entries for the version from the state.
\<close>

definition wipe_version :: "needs_list \<Rightarrow> string \<Rightarrow> needs_list" where
  "wipe_version nl v = nl\<lparr>versions := filter (\<lambda>ke. fst ke \<noteq> v) (versions nl)\<rparr>"

text \<open>
  Modelled from the spec: \<open>NeedsList.add_need\<close> and \<open>NeedsList.add_filter\<close>, which are
  not among the sources. They append a need, or attach a filter's definition, to the
  entry of the version, which is created when the state has none.
\<close>

fun update_entry ::
  "string \<Rightarrow> (version_entry \<Rightarrow> version_entry) \<Rightarrow> (string \<times> version_entry) list \<Rightarrow>
   (string \<times> version_entry) list" where
  "update_entry v f [] = [(v, f \<lparr>needs = [], filters = []\<rparr>)]"
| "update_entry v f ((k, e) # xs) =
     (if k = v then (k, f e) # xs else (k, e) # update_entry v f xs)"

definition add_need :: "needs_list \<Rightarrow> string \<Rightarrow> need \<Rightarrow> needs_list" where
  "add_need nl v n =
     nl\<lparr>versions := update_entry v (\<lambda>e. e\<lparr>needs := needs e @ [n]\<rparr>) (versions nl)\<rparr>"

definition add_filter :: "needs_list \<Rightarrow> string \<Rightarrow> need_filter \<Rightarrow> needs_list" where
  "add_filter nl v f =
     nl\<lparr>versions := update_entry v (\<lambda>e. e\<lparr>filters := filters e @ [f]\<rparr>) (versions nl)\<rparr>"

text \<open>
  Modelled from the spec: \<open>NeedsList.write_json\<close>, which is not among the sources.
  \<open>write_json(needs_file, needs_path)\<close> persists the state as one JSON file, the file
  \<open>needs_file\<close> in the directory \<open>needs_path\<close>. Called without arguments it writes to
  \<open>needs.json\<close>, or to the \<open>needs_file\<close> option when that is set, in the output
  folder.
\<close>

definition write_json :: "needs_list \<Rightarrow> string \<Rightarrow> string \<Rightarrow> world \<Rightarrow> exn + world" where
  "write_json nl file_name needs_path w =
     write_file (join needs_path file_name) (JsonDoc (versions nl)) w"

definition default_file :: "needs_list \<Rightarrow> string" where
  "default_file nl =
     (if truthy_opt (needs_file (nl_config nl)) then the (needs_file (nl_config nl))
      else ''needs.json'')"

text \<open>
  Modelled from the spec: the filter evaluator \<open>filter_needs\<close> of
  sphinx\_needs/filter\_common.py, which is not among the sources: a function taking the
  configuration, a collection of needs and a filter expression, and returning the
  filtered subset. What an expression accepts is the parameter \<open>accepts\<close>.
\<close>

definition filter_needs ::
  "(config \<Rightarrow> string \<Rightarrow> need \<Rightarrow> bool) \<Rightarrow> config \<Rightarrow> need list \<Rightarrow> string \<Rightarrow> need list" where
  "filter_needs accepts cfg ns fexpr = filter (accepts cfg fexpr) ns"

section \<open>The JSON needs exporter: \<open>NeedsBuilder.finish\<close>\<close>

definition finish_NeedsBuilderBase :: "builder \<Rightarrow> world \<Rightarrow> exn + world" where
  "finish_NeedsBuilderBase b w =
     Inl (NotImplementedError ''NeedsBuilderBase.finish() must be implemented in subclass'')"

text \<open>\<open>version = getattr(env.config, "version", "unset")\<close>.\<close>

definition current_version :: "environment \<Rightarrow> string" where
  "current_version e = (case version (env_config e) of None \<Rightarrow> ''unset'' | Some v \<Rightarrow> v)"

text \<open>
  Lines 105 to 114: the fresh \<open>NeedsList\<close>, loaded from \<open>needs_file\<close> when that is
  configured; otherwise a note is logged when a \<open>needs.json\<close> lies in the source
  directory.
\<close>

definition loaded_needs_list :: "builder \<Rightarrow> world \<Rightarrow> needs_list" where
  "loaded_needs_list b w =
     (let cfg = env_config (env b);
          nl = NeedsList cfg (outdir b) (srcdir b)
      in if truthy_opt (needs_file cfg) then load_json nl (the (needs_file cfg)) w else nl)"

definition note_unused_needs_json :: "builder \<Rightarrow> world \<Rightarrow> world" where
  "note_unused_needs_json b w =
     (if truthy_opt (needs_file (env_config (env b))) then w
      else if exists w (join (srcdir b) ''needs.json'')
        then log_info
          ''needs.json found, but will not be used because needs_file not configured.'' w
      else w)"

text \<open>The loop of lines 125 and 126.\<close>

fun add_needs :: "needs_list \<Rightarrow> string \<Rightarrow> need list \<Rightarrow> needs_list" where
  "add_needs nl v [] = nl"
| "add_needs nl v (n # ns) = add_needs (add_need nl v n) v ns"

text \<open>The loop of lines 128 to 130.\<close>

fun add_filters :: "needs_list \<Rightarrow> string \<Rightarrow> need_filter list \<Rightarrow> needs_list" where
  "add_filters nl v [] = nl"
| "add_filters nl v (f # fs) =
     add_filters (if truthy_str (export_id f) then add_filter nl v f else nl) v fs"

text \<open>Lines 116 to 130: the state that is handed to \<open>write_json\<close>.\<close>

definition collected_needs_list ::
  "(config \<Rightarrow> string \<Rightarrow> need \<Rightarrow> bool) \<Rightarrow> builder \<Rightarrow> needs_list \<Rightarrow> needs_list" where
  "collected_needs_list accepts b needs_list =
     (let e = env b;
          cfg = env_config e;
          v = current_version e;
          nl = wipe_version needs_list v;
          filtered_needs = filter_needs accepts cfg (dict_values (env_needs e)) (builder_filter cfg);
          nl = add_needs nl v filtered_needs
      in add_filters nl v (dict_values (env_filters e)))"

text \<open>Lines 132 to 137: the write, with its \<open>try ... except Exception ... else\<close>.\<close>

definition finish_NeedsBuilder ::
  "(config \<Rightarrow> string \<Rightarrow> need \<Rightarrow> bool) \<Rightarrow> builder \<Rightarrow> world \<Rightarrow> exn + world" where
  "finish_NeedsBuilder accepts b w =
     (let nl = collected_needs_list accepts b (loaded_needs_list b w);
          w1 = note_unused_needs_json b w
      in case write_json nl (default_file nl) (nl_outdir nl) w1 of
           Inl e \<Rightarrow> Inr (log_error (''Error during writing json file: '' @ str e) w1)
         | Inr w2 \<Rightarrow> Inr (log_info ''Needs successfully exported'' w2))"

text \<open>The file \<open>NeedsBuilder.finish\<close> writes, and the version's needs in a document.\<close>

definition needs_json_path :: "builder \<Rightarrow> string" where
  "needs_json_path b =
     join (outdir b) (default_file (NeedsList (env_config (env b)) (outdir b) (srcdir b)))"

definition needs_of_version :: "(string \<times> version_entry) list \<Rightarrow> string \<Rightarrow> need list" where
  "needs_of_version vs v = (case map_of vs v of None \<Rightarrow> [] | Some e \<Rightarrow> needs e)"

text \<open>The document \<open>NeedsBuilder.finish\<close> hands to \<open>write_json\<close>.\<close>

definition needs_json_doc ::
  "(config \<Rightarrow> string \<Rightarrow> need \<Rightarrow> bool) \<Rightarrow> builder \<Rightarrow> world \<Rightarrow> file_content" where
  "needs_json_doc accepts b w =
     JsonDoc (versions (collected_needs_list accepts b (loaded_needs_list b w)))"

section \<open>The per-need JSON exporter: \<open>NeedsIdBuilder.finish\<close>\<close>

text \<open>Lines 230 to 232: the state built for one need.\<close>

definition needs_id_list :: "builder \<Rightarrow> need \<Rightarrow> needs_list" where
  "needs_id_list b nd =
     (let e = env b;
          v = current_version e;
          nl = NeedsList (env_config e) (outdir b) (srcdir b);
          nl = wipe_version nl v
      in add_need nl v nd)"

text \<open>
  The loop of lines 229 to 238: the write of each need stands in its own
  \<open>try ... except Exception\<close>, which logs and goes on with the next need.
\<close>

fun write_needs_id :: "builder \<Rightarrow> string \<Rightarrow> need list \<Rightarrow> world \<Rightarrow> world" where
  "write_needs_id b needs_dir [] w = w"
| "write_needs_id b needs_dir (nd # rest) w =
     (let nl = needs_id_list b nd;
          ident = need_id nd;
          file_name = ident @ ''.json''
      in case write_json nl file_name needs_dir w of
           Inl e \<Rightarrow>
             write_needs_id b needs_dir rest
               (log_error (''Needs-ID Builder '' @ ident @ '' error: '' @ str e) w)
         | Inr w' \<Rightarrow> write_needs_id b needs_dir rest w')"

definition needs_id_dir :: "builder \<Rightarrow> string" where
  "needs_id_dir b = join (outdir b) (build_json_per_id_path (env_config (env b)))"

definition finish_NeedsIdBuilder ::
  "(config \<Rightarrow> string \<Rightarrow> need \<Rightarrow> bool) \<Rightarrow> builder \<Rightarrow> world \<Rightarrow> exn + world" where
  "finish_NeedsIdBuilder accepts b w =
     (let e = env b;
          cfg = env_config e;
          filtered_needs = filter_needs accepts cfg (dict_values (env_needs e)) (builder_filter cfg);
          needs_dir = needs_id_dir b
      in case (if \<not> exists w needs_dir then makedirs needs_dir w else Inr w) of
           Inl x \<Rightarrow> Inl x
         | Inr w1 \<Rightarrow>
             Inr (log_info ''Needs_id successfully exported''
                    (write_needs_id b needs_dir filtered_needs w1)))"

text \<open>The file of one need and the document written to it.\<close>

definition needs_id_path :: "builder \<Rightarrow> need \<Rightarrow> string" where
  "needs_id_path b nd = join (needs_id_dir b) (need_id nd @ ''.json'')"

definition needs_id_doc :: "builder \<Rightarrow> need \<Rightarrow> file_content" where
  "needs_id_doc b nd = JsonDoc [(current_version (env b), \<lparr>needs = [nd], filters = []\<rparr>)]"

section \<open>The diagram exporter: \<open>NeedumlsBuilder.finish\<close>\<close>

text \<open>
  The loop of lines 171 to 182. Nothing here catches an exception: a failing
  \<open>os.makedirs\<close> or write ends the loop and leaves \<open>finish\<close>.
\<close>

fun store_needumls :: "string \<Rightarrow> needuml list \<Rightarrow> world \<Rightarrow> exn + world" where
  "store_needumls out [] w = Inr w"
| "store_needumls out (u # us) w =
     (if truthy_opt (save u) then
        (let puml_content = content_calculated u;
             save_path = join out (the (save u));
             save_dir = dirname save_path
         in case (if \<not> exists w save_dir then makedirs save_dir w else Inr w) of
              Inl x \<Rightarrow> Inl x
            | Inr w1 \<Rightarrow>
                (case write_file save_path (Text puml_content)
                        (log_info (''Storing needuml data to file '' @ save_path @ ''.'') w1) of
                   Inl x \<Rightarrow> Inl x
                 | Inr w2 \<Rightarrow> store_needumls out us w2))
      else store_needumls out us w)"

definition finish_NeedumlsBuilder :: "builder \<Rightarrow> world \<Rightarrow> exn + world" where
  "finish_NeedumlsBuilder b w = store_needumls (outdir b) (dict_values (env_umls (env b))) w"

text \<open>The file of a diagram record with a \<open>save\<close> path.\<close>

definition needuml_path :: "builder \<Rightarrow> needuml \<Rightarrow> string" where
  "needuml_path b u = join (outdir b) (the (save u))"

section \<open>The post-build hooks\<close>

text \<open>
  The host application: its environment, the builder of the primary build, its
  directories, whether the host's \<open>Builder\<close> takes the environment as a second
  argument (older hosts raise \<open>TypeError\<close>), and \<open>sphinx.version_info[0]\<close>.
\<close>

record sphinx =
  app_env :: environment
  app_builder :: builder
  app_outdir :: string
  app_srcdir :: string
  builder_takes_env :: bool
  version_major :: nat

text \<open>
  The two construction signatures of the host, \<open>B(app, env)\<close> and \<open>B(app)\<close>. The
  second leaves the environment to \<open>set_environment\<close>, which every caller here
  invokes before anything reads it; until then the model holds the application's.
\<close>

definition Builder_env :: "builder_class \<Rightarrow> sphinx \<Rightarrow> environment \<Rightarrow> exn + builder" where
  "Builder_env c app e =
     (if builder_takes_env app
      then Inr \<lparr>cls = c, env = e, outdir = app_outdir app, srcdir = app_srcdir app\<rparr>
      else Inl (TypeError ''__init__() takes 2 positional arguments but 3 were given''))"

definition Builder_app :: "builder_class \<Rightarrow> sphinx \<Rightarrow> builder" where
  "Builder_app c app =
     \<lparr>cls = c, env = app_env app, outdir = app_outdir app, srcdir = app_srcdir app\<rparr>"

definition set_environment :: "environment \<Rightarrow> builder \<Rightarrow> builder" where
  "set_environment e b = b\<lparr>env := e\<rparr>"

text \<open>\<open>isinstance(app.builder, C)\<close> for a class \<open>C\<close> of this module without subclasses.\<close>

definition isinstance :: "builder \<Rightarrow> builder_class \<Rightarrow> bool" where
  "isinstance b c = (cls b = c)"

text \<open>Lines 150 to 154 and 251 to 255: \<open>try: B(app, env) except TypeError: B(app) ...\<close>.\<close>

definition try_construct :: "builder_class \<Rightarrow> sphinx \<Rightarrow> environment \<Rightarrow> exn + builder" where
  "try_construct c app e =
     (case Builder_env c app e of
        Inr nb \<Rightarrow> Inr nb
      | Inl (TypeError m) \<Rightarrow> Inr (set_environment e (Builder_app c app))
      | Inl x \<Rightarrow> Inl x)"

definition build_needs_json ::
  "(config \<Rightarrow> string \<Rightarrow> need \<Rightarrow> bool) \<Rightarrow> sphinx \<Rightarrow> exn option \<Rightarrow> world \<Rightarrow> exn + world" where
  "build_needs_json accepts app exception w =
     (let e = app_env app in
      if \<not> build_json (env_config e) then Inr w
      else if isinstance (app_builder app) NeedsBuilder then Inr w
      else (case try_construct NeedsBuilder app e of
              Inl x \<Rightarrow> Inl x
            | Inr needs_builder \<Rightarrow> finish_NeedsBuilder accepts needs_builder w))"

definition build_needumls_pumls :: "sphinx \<Rightarrow> exn option \<Rightarrow> world \<Rightarrow> exn + world" where
  "build_needumls_pumls app exception w =
     (let e = app_env app;
          cfg = env_config e
      in if \<not> truthy_str (build_needumls cfg) then Inr w
         else if isinstance (app_builder app) NeedumlsBuilder then Inr w
         else (case (if 5 \<le> version_major app
                     then (case Builder_env NeedumlsBuilder app e of
                             Inl x \<Rightarrow> Inl x
                           | Inr nb \<Rightarrow> Inr (nb\<lparr>outdir := join (outdir nb) (build_needumls cfg)\<rparr>))
                     else (let nb = Builder_app NeedumlsBuilder app;
                               nb = nb\<lparr>outdir := join (outdir nb) (build_needumls cfg)\<rparr>
                           in Inr (set_environment e nb))) of
                 Inl x \<Rightarrow> Inl x
               | Inr needs_builder \<Rightarrow> finish_NeedumlsBuilder needs_builder w))"

definition build_needs_id_json ::
  "(config \<Rightarrow> string \<Rightarrow> need \<Rightarrow> bool) \<Rightarrow> sphinx \<Rightarrow> exn option \<Rightarrow> world \<Rightarrow> exn + world" where
  "build_needs_id_json accepts app exception w =
     (let e = app_env app in
      if \<not> build_json_per_id (env_config e) then Inr w
      else if isinstance (app_builder app) NeedsIdBuilder then Inr w
      else (case try_construct NeedsIdBuilder app e of
              Inl x \<Rightarrow> Inl x
            | Inr needs_id_builder \<Rightarrow> finish_NeedsIdBuilder accepts needs_id_builder w))"

section \<open>Notions used to state the properties\<close>

text \<open>The effect of a sequence of successful writes on the files.\<close>

definition apply_writes ::
  "(string \<Rightarrow> file_content option) \<Rightarrow> (string \<times> file_content) list \<Rightarrow>
   (string \<Rightarrow> file_content option)" where
  "apply_writes fs ws = foldl (\<lambda>f pc. f(fst pc \<mapsto> snd pc)) fs ws"

text \<open>
  A diagram record can be stored: writing its file does not raise, and its directory is
  there or can be made.
\<close>

definition needuml_storable :: "string \<Rightarrow> world \<Rightarrow> needuml \<Rightarrow> bool" where
  "needuml_storable out w u =
     (write_raises w (join out (the (save u))) (Text (content_calculated u)) = None
      \<and> (exists w (dirname (join out (the (save u))))
           \<or> makedirs_ok w (dirname (join out (the (save u))))))"

text \<open>The writes and the log lines of the records that have a \<open>save\<close> path, in order.\<close>

definition needuml_writes :: "string \<Rightarrow> needuml list \<Rightarrow> (string \<times> file_content) list" where
  "needuml_writes out us =
     map (\<lambda>u. (join out (the (save u)), Text (content_calculated u)))
       (filter (\<lambda>u. truthy_opt (save u)) us)"

definition needuml_notes :: "string \<Rightarrow> needuml list \<Rightarrow> (level \<times> string) list" where
  "needuml_notes out us =
     map (\<lambda>u. (INFO, ''Storing needuml data to file '' @ join out (the (save u)) @ ''.''))
       (filter (\<lambda>u. truthy_opt (save u)) us)"

subsection \<open>A small build, used to instantiate the theorems\<close>

definition R0 :: need where
  "R0 = \<lparr>need_id = ''R0'', need_fields = [(''title'', ''Old'')]\<rparr>"

definition R1 :: need where
  "R1 = \<lparr>need_id = ''R1'', need_fields = [(''title'', ''A'')]\<rparr>"

definition R2 :: need where
  "R2 = \<lparr>need_id = ''R2'', need_fields = [(''title'', ''B'')]\<rparr>"

definition example_accepts :: "config \<Rightarrow> string \<Rightarrow> need \<Rightarrow> bool" where
  "example_accepts cfg fexpr nd = True"

definition example_config :: config where
  "example_config =
     \<lparr>version = Some ''1.0'', needs_file = Some ''needs.json'', builder_filter = [],
      build_json = False, build_json_per_id = False,
      build_json_per_id_path = ''needs_id'', build_needumls = []\<rparr>"

definition example_env :: environment where
  "example_env =
     \<lparr>env_config = example_config, found_docs = {''index''},
      env_needs = [(''R1'', R1), (''R2'', R2)],
      env_filters = [],
      env_umls = [(''u1'', \<lparr>save = Some ''sub/dir/out.puml'', content_calculated = ''@startuml''\<rparr>),
                  (''u2'', \<lparr>save = None, content_calculated = ''@enduml''\<rparr>)]\<rparr>"

definition example_builder :: "builder_class \<Rightarrow> builder" where
  "example_builder c = \<lparr>cls = c, env = example_env, outdir = ''out'', srcdir = ''src''\<rparr>"

text \<open>
  A disk that holds an earlier \<open>needs.json\<close> with the need \<open>R0\<close> under version
  \<open>1.0\<close>, and on which the per-need file of \<open>R2\<close> cannot be written.
\<close>

definition example_world :: world where
  "example_world =
     \<lparr>files = [''needs.json'' \<mapsto> JsonDoc [(''1.0'', \<lparr>needs = [R0], filters = []\<rparr>)]],
      dirs = {''out''},
      written = [],
      logged = [],
      write_raises = (\<lambda>p c. if p = ''out/needs_id/R2.json'' then Some ''disk full'' else None),
      makedirs_raises = (\<lambda>p. None)\<rparr>"

text \<open>The same disk, full: every write raises.\<close>

definition full_world :: world where
  "full_world = example_world\<lparr>write_raises := (\<lambda>p c. Some ''disk full'')\<rparr>"

definition example_app :: sphinx where
  "example_app =
     \<lparr>app_env = example_env, app_builder = example_builder OtherBuilder,
      app_outdir = ''out'', app_srcdir = ''src'', builder_takes_env = True, version_major = 7\<rparr>"

section \<open>Auxiliary facts\<close>

subsection \<open>The list serializer\<close>

lemma wipe_update_entry:
  "filter (\<lambda>ke. fst ke \<noteq> v) (update_entry v f xs) = filter (\<lambda>ke. fst ke \<noteq> v) xs"
  by (induction xs) auto

lemma map_of_update_entry:
  "map_of (update_entry v f xs) v
   = Some (f (case map_of xs v of None \<Rightarrow> \<lparr>needs = [], filters = []\<rparr> | Some e \<Rightarrow> e))"
  by (induction xs) auto

lemma wipe_add_need: "wipe_version (add_need nl v n) v = wipe_version nl v"
  by (simp add: wipe_version_def add_need_def wipe_update_entry)

lemma wipe_add_filter: "wipe_version (add_filter nl v f) v = wipe_version nl v"
  by (simp add: wipe_version_def add_filter_def wipe_update_entry)

lemma wipe_add_needs: "wipe_version (add_needs nl v ns) v = wipe_version nl v"
  by (induction ns arbitrary: nl) (simp_all add: wipe_add_need)

lemma wipe_add_filters: "wipe_version (add_filters nl v fs) v = wipe_version nl v"
  by (induction fs arbitrary: nl) (simp_all add: wipe_add_filter)

lemma wipe_wipe: "wipe_version (wipe_version nl v) v = wipe_version nl v"
  by (simp add: wipe_version_def)

lemma wipe_collected:
  "wipe_version (collected_needs_list accepts b nl) (current_version (env b))
   = wipe_version nl (current_version (env b))"
  by (simp add: collected_needs_list_def Let_def wipe_add_filters wipe_add_needs wipe_wipe)

lemma collected_by_wipe:
  "wipe_version nl (current_version (env b)) = wipe_version nl' (current_version (env b))
   \<Longrightarrow> collected_needs_list accepts b nl = collected_needs_list accepts b nl'"
  by (simp add: collected_needs_list_def Let_def)

lemma needs_add_need:
  "needs_of_version (versions (add_need nl v n)) v = needs_of_version (versions nl) v @ [n]"
  by (simp add: needs_of_version_def add_need_def map_of_update_entry split: option.split)

lemma needs_add_filter:
  "needs_of_version (versions (add_filter nl v f)) v = needs_of_version (versions nl) v"
  by (simp add: needs_of_version_def add_filter_def map_of_update_entry split: option.split)

lemma needs_add_needs:
  "needs_of_version (versions (add_needs nl v ns)) v = needs_of_version (versions nl) v @ ns"
  by (induction ns arbitrary: nl) (simp_all add: needs_add_need)

lemma needs_add_filters:
  "needs_of_version (versions (add_filters nl v fs)) v = needs_of_version (versions nl) v"
  by (induction fs arbitrary: nl) (simp_all add: needs_add_filter)

lemma needs_wipe: "needs_of_version (versions (wipe_version nl v)) v = []"
proof -
  have "map_of (filter (\<lambda>ke. fst ke \<noteq> v) xs) v = None" for xs :: "(string \<times> version_entry) list"
    by (induction xs) auto
  then show ?thesis by (simp add: needs_of_version_def wipe_version_def)
qed

lemma needs_collected:
  "needs_of_version (versions (collected_needs_list accepts b nl)) (current_version (env b))
   = filter_needs accepts (env_config (env b)) (dict_values (env_needs (env b)))
       (builder_filter (env_config (env b)))"
  by (simp add: collected_needs_list_def Let_def needs_add_filters needs_add_needs needs_wipe)


lemma add_needs_frame [simp]:
  "nl_config (add_needs nl v ns) = nl_config nl"
  "nl_outdir (add_needs nl v ns) = nl_outdir nl"
  "nl_confdir (add_needs nl v ns) = nl_confdir nl"
  by (induction ns arbitrary: nl) (simp_all add: add_need_def)

lemma add_filters_frame [simp]:
  "nl_config (add_filters nl v fs) = nl_config nl"
  "nl_outdir (add_filters nl v fs) = nl_outdir nl"
  "nl_confdir (add_filters nl v fs) = nl_confdir nl"
  by (induction fs arbitrary: nl) (simp_all add: add_filter_def)

lemma collected_frame [simp]:
  "nl_config (collected_needs_list accepts b nl) = nl_config nl"
  "nl_outdir (collected_needs_list accepts b nl) = nl_outdir nl"
  "nl_confdir (collected_needs_list accepts b nl) = nl_confdir nl"
  by (simp_all add: collected_needs_list_def Let_def wipe_version_def)

lemma loaded_frame [simp]:
  "nl_config (loaded_needs_list b w) = env_config (env b)"
  "nl_outdir (loaded_needs_list b w) = outdir b"
  "nl_confdir (loaded_needs_list b w) = srcdir b"
  by (simp_all add: loaded_needs_list_def Let_def load_json_def NeedsList_def
      split: option.split file_content.split)

lemma note_unused_frame [simp]:
  "files (note_unused_needs_json b w) = files w"
  "dirs (note_unused_needs_json b w) = dirs w"
  "written (note_unused_needs_json b w) = written w"
  "write_raises (note_unused_needs_json b w) = write_raises w"
  "makedirs_raises (note_unused_needs_json b w) = makedirs_raises w"
  by (simp_all add: note_unused_needs_json_def log_info_def)

lemma finish_NeedsBuilder_cases:
  "finish_NeedsBuilder accepts b w =
     (let nl = collected_needs_list accepts b (loaded_needs_list b w);
          w1 = note_unused_needs_json b w;
          doc = JsonDoc (versions nl)
      in case write_raises w (needs_json_path b) doc of
           Some m \<Rightarrow> Inr (log_error (''Error during writing json file: '' @ m) w1)
         | None \<Rightarrow> Inr (log_info ''Needs successfully exported''
             (w1\<lparr>files := (files w1)(needs_json_path b \<mapsto> doc),
                 written := written w1 @ [(needs_json_path b, doc)]\<rparr>)))"
  by (simp add: finish_NeedsBuilder_def Let_def write_json_def write_file_def
      needs_json_path_def default_file_def NeedsList_def split: option.split)

lemma entry_add_need_cong:
  "map_of (versions nl) v = map_of (versions nl') v
   \<Longrightarrow> map_of (versions (add_need nl v n)) v = map_of (versions (add_need nl' v n)) v"
  by (simp add: add_need_def map_of_update_entry)

lemma entry_add_filter_cong:
  "map_of (versions nl) v = map_of (versions nl') v
   \<Longrightarrow> map_of (versions (add_filter nl v f)) v = map_of (versions (add_filter nl' v f)) v"
  by (simp add: add_filter_def map_of_update_entry)

lemma entry_add_needs_cong:
  "map_of (versions nl) v = map_of (versions nl') v
   \<Longrightarrow> map_of (versions (add_needs nl v ns)) v = map_of (versions (add_needs nl' v ns)) v"
proof (induction ns arbitrary: nl nl')
  case Nil
  then show ?case by simp
next
  case (Cons n ns)
  from Cons.prems
  have "map_of (versions (add_need nl v n)) v = map_of (versions (add_need nl' v n)) v"
    by (rule entry_add_need_cong)
  then have "map_of (versions (add_needs (add_need nl v n) v ns)) v
             = map_of (versions (add_needs (add_need nl' v n) v ns)) v"
    by (rule Cons.IH)
  then show ?case by simp
qed

lemma entry_add_filters_cong:
  "map_of (versions nl) v = map_of (versions nl') v
   \<Longrightarrow> map_of (versions (add_filters nl v fs)) v = map_of (versions (add_filters nl' v fs)) v"
proof (induction fs arbitrary: nl nl')
  case Nil
  then show ?case by simp
next
  case (Cons f fs)
  let ?step = "\<lambda>x. if truthy_str (export_id f) then add_filter x v f else x"
  have "map_of (versions (?step nl)) v = map_of (versions (?step nl')) v"
  proof (cases "truthy_str (export_id f)")
    case True
    from Cons.prems
    have "map_of (versions (add_filter nl v f)) v = map_of (versions (add_filter nl' v f)) v"
      by (rule entry_add_filter_cong)
    with True show ?thesis by (simp only: if_True)
  next
    case False
    with Cons.prems show ?thesis by (simp only: if_False)
  qed
  then have "map_of (versions (add_filters (?step nl) v fs)) v
             = map_of (versions (add_filters (?step nl') v fs)) v"
    by (rule Cons.IH)
  then show ?case by (simp only: add_filters.simps)
qed

lemma entry_wipe: "map_of (versions (wipe_version nl v)) v = None"
proof -
  have "map_of (filter (\<lambda>ke. fst ke \<noteq> v) xs) v = None" for xs :: "(string \<times> version_entry) list"
    by (induction xs) auto
  then show ?thesis by (simp add: wipe_version_def)
qed

lemma entry_collected:
  "map_of (versions (collected_needs_list accepts b nl)) (current_version (env b))
   = map_of (versions (collected_needs_list accepts b nl')) (current_version (env b))"
  unfolding collected_needs_list_def Let_def
  by (intro entry_add_filters_cong entry_add_needs_cong) (simp add: entry_wipe)

lemma filter_needs_subset: "set (filter_needs accepts cfg ns f) \<subseteq> set ns"
  by (simp add: filter_needs_def)

lemma loaded_files_upd:
  assumes "files w' = (files w)(p \<mapsto> JsonDoc (versions X))"
    and "nl_config X = env_config (env b)" "nl_outdir X = outdir b" "nl_confdir X = srcdir b"
  shows "wipe_version (loaded_needs_list b w') v
         = (if truthy_opt (needs_file (env_config (env b))) \<and> the (needs_file (env_config (env b))) = p
            then wipe_version X v else wipe_version (loaded_needs_list b w) v)"
  using assms
  by (auto simp add: loaded_needs_list_def Let_def load_json_def NeedsList_def wipe_version_def
      split: option.split file_content.split)

lemma loaded_files_cong:
  "files w' = files w \<Longrightarrow> loaded_needs_list b w' = loaded_needs_list b w"
  by (simp add: loaded_needs_list_def Let_def load_json_def)

lemma doc_files_cong:
  assumes "files w' = files w"
  shows "needs_json_doc accepts b w' = needs_json_doc accepts b w"
  unfolding needs_json_doc_def loaded_files_cong [OF assms] ..

lemma doc_files_upd:
  assumes f: "files w' = (files w)(p \<mapsto> needs_json_doc accepts b w)"
  shows "needs_json_doc accepts b w' = needs_json_doc accepts b w"
proof -
  let ?X = "collected_needs_list accepts b (loaded_needs_list b w)"
  let ?v = "current_version (env b)"
  have f': "files w' = (files w)(p \<mapsto> JsonDoc (versions ?X))"
    using f by (simp only: needs_json_doc_def)
  have "wipe_version (loaded_needs_list b w') ?v
        = (if truthy_opt (needs_file (env_config (env b)))
              \<and> the (needs_file (env_config (env b))) = p
           then wipe_version ?X ?v else wipe_version (loaded_needs_list b w) ?v)"
    by (rule loaded_files_upd [OF f']) (simp_all only: collected_frame loaded_frame)
  also have "\<dots> = wipe_version (loaded_needs_list b w) ?v"
    by (simp only: wipe_collected if_cancel)
  finally have "collected_needs_list accepts b (loaded_needs_list b w') = ?X"
    by (rule collected_by_wipe)
  then show ?thesis by (simp only: needs_json_doc_def)
qed

lemma finish_NeedsBuilder_world:
  "\<exists>w'. finish_NeedsBuilder accepts b w = Inr w'
      \<and> write_raises w' = write_raises w
      \<and> files w' = (case write_raises w (needs_json_path b) (needs_json_doc accepts b w) of
                      None \<Rightarrow> (files w)(needs_json_path b \<mapsto> needs_json_doc accepts b w)
                    | Some m \<Rightarrow> files w)"
  by (simp add: finish_NeedsBuilder_cases Let_def needs_json_doc_def log_info_def log_error_def
      split: option.split)


subsection \<open>The per-need loop\<close>

lemma versions_needs_id_list:
  "JsonDoc (versions (needs_id_list b nd)) = needs_id_doc b nd"
  by (simp add: needs_id_list_def needs_id_doc_def Let_def NeedsList_def wipe_version_def add_need_def)

lemma write_needs_id_step:
  "write_needs_id b (needs_id_dir b) (nd # rest) w =
     (case write_raises w (needs_id_path b nd) (needs_id_doc b nd) of
        Some m \<Rightarrow>
          write_needs_id b (needs_id_dir b) rest
            (log_error (''Needs-ID Builder '' @ need_id nd @ '' error: '' @ m) w)
      | None \<Rightarrow>
          write_needs_id b (needs_id_dir b) rest
            (w\<lparr>files := (files w)(needs_id_path b nd \<mapsto> needs_id_doc b nd),
               written := written w @ [(needs_id_path b nd, needs_id_doc b nd)]\<rparr>))"
  by (simp add: Let_def write_json_def write_file_def versions_needs_id_list needs_id_path_def
      split: option.split)

lemma write_needs_id_frame:
  "write_raises (write_needs_id b d ns w) = write_raises w
   \<and> makedirs_raises (write_needs_id b d ns w) = makedirs_raises w
   \<and> dirs (write_needs_id b d ns w) = dirs w"
  by (induction ns arbitrary: w)
     (simp_all add: Let_def write_json_def write_file_def log_error_def split: option.split)

lemma write_needs_id_written:
  "write_raises w = r \<Longrightarrow>
   written (write_needs_id b (needs_id_dir b) ns w)
   = written w @ map (\<lambda>nd. (needs_id_path b nd, needs_id_doc b nd))
                   (filter (\<lambda>nd. r (needs_id_path b nd) (needs_id_doc b nd) = None) ns)"
proof (induction ns arbitrary: w)
  case Nil
  then show ?case by simp
next
  case (Cons nd rest)
  show ?case
  proof (cases "r (needs_id_path b nd) (needs_id_doc b nd)")
    case None
    let ?w = "w\<lparr>files := (files w)(needs_id_path b nd \<mapsto> needs_id_doc b nd),
               written := written w @ [(needs_id_path b nd, needs_id_doc b nd)]\<rparr>"
    have "write_raises ?w = r" using Cons.prems by simp
    from Cons.IH [OF this] None Cons.prems show ?thesis
      by (simp only: write_needs_id_step) simp
  next
    case (Some m)
    let ?w = "log_error (''Needs-ID Builder '' @ need_id nd @ '' error: '' @ m) w"
    have "write_raises ?w = r" using Cons.prems by (simp add: log_error_def)
    from Cons.IH [OF this] Some Cons.prems show ?thesis
      by (simp only: write_needs_id_step) (simp add: log_error_def)
  qed
qed

lemma write_needs_id_logged:
  "write_raises w = r \<Longrightarrow>
   logged (write_needs_id b (needs_id_dir b) ns w)
   = logged w @ map (\<lambda>nd. (ERROR, ''Needs-ID Builder '' @ need_id nd @ '' error: ''
                               @ the (r (needs_id_path b nd) (needs_id_doc b nd))))
                   (filter (\<lambda>nd. r (needs_id_path b nd) (needs_id_doc b nd) \<noteq> None) ns)"
proof (induction ns arbitrary: w)
  case Nil
  then show ?case by simp
next
  case (Cons nd rest)
  show ?case
  proof (cases "r (needs_id_path b nd) (needs_id_doc b nd)")
    case None
    let ?w = "w\<lparr>files := (files w)(needs_id_path b nd \<mapsto> needs_id_doc b nd),
               written := written w @ [(needs_id_path b nd, needs_id_doc b nd)]\<rparr>"
    have "write_raises ?w = r" using Cons.prems by simp
    from Cons.IH [OF this] None Cons.prems show ?thesis
      by (simp only: write_needs_id_step) simp
  next
    case (Some m)
    let ?w = "log_error (''Needs-ID Builder '' @ need_id nd @ '' error: '' @ m) w"
    have "write_raises ?w = r" using Cons.prems by (simp add: log_error_def)
    from Cons.IH [OF this] Some Cons.prems show ?thesis
      by (simp only: write_needs_id_step) (simp add: log_error_def)
  qed
qed

lemma write_needs_id_files:
  assumes "write_raises w = r"
    and "files w p = Some (needs_id_doc b R) \<or> R \<in> set ns"
    and "r p (needs_id_doc b R) = None"
    and "p = needs_id_path b R"
    and "\<forall>q\<in>set ns. needs_id_path b q = p \<longrightarrow> q = R"
  shows "files (write_needs_id b (needs_id_dir b) ns w) p = Some (needs_id_doc b R)"
  using assms
proof (induction ns arbitrary: w)
  case Nil
  then show ?case by simp
next
  case (Cons nd rest)
  have uniq: "\<forall>q\<in>set rest. needs_id_path b q = p \<longrightarrow> q = R" using Cons.prems(5) by simp
  show ?case
  proof (cases "needs_id_path b nd = p")
    case True
    then have nd: "nd = R" using Cons.prems(5) by simp
    let ?w = "w\<lparr>files := (files w)(needs_id_path b nd \<mapsto> needs_id_doc b nd),
               written := written w @ [(needs_id_path b nd, needs_id_doc b nd)]\<rparr>"
    have 1: "write_raises ?w = r" using Cons.prems(1) by simp
    have 2: "files ?w p = Some (needs_id_doc b R) \<or> R \<in> set rest" using True nd by simp
    have "files (write_needs_id b (needs_id_dir b) rest ?w) p = Some (needs_id_doc b R)"
      by (rule Cons.IH [OF 1 2 Cons.prems(3) Cons.prems(4) uniq])
    moreover have "write_raises w (needs_id_path b nd) (needs_id_doc b nd) = None"
      using Cons.prems(1,3,4) nd by simp
    ultimately show ?thesis by (simp only: write_needs_id_step option.case)
  next
    case False
    then have ne: "nd \<noteq> R" using Cons.prems(4) by auto
    show ?thesis
    proof (cases "write_raises w (needs_id_path b nd) (needs_id_doc b nd)")
      case None
      let ?w = "w\<lparr>files := (files w)(needs_id_path b nd \<mapsto> needs_id_doc b nd),
                 written := written w @ [(needs_id_path b nd, needs_id_doc b nd)]\<rparr>"
      have 1: "write_raises ?w = r" using Cons.prems(1) by simp
      have 2: "files ?w p = Some (needs_id_doc b R) \<or> R \<in> set rest"
        using Cons.prems(2) False ne by auto
      have "files (write_needs_id b (needs_id_dir b) rest ?w) p = Some (needs_id_doc b R)"
        by (rule Cons.IH [OF 1 2 Cons.prems(3) Cons.prems(4) uniq])
      with None show ?thesis by (simp only: write_needs_id_step option.case)
    next
      case (Some m)
      let ?w = "log_error (''Needs-ID Builder '' @ need_id nd @ '' error: '' @ m) w"
      have 1: "write_raises ?w = r" using Cons.prems(1) by (simp add: log_error_def)
      have 2: "files ?w p = Some (needs_id_doc b R) \<or> R \<in> set rest"
        using Cons.prems(2) ne by (auto simp add: log_error_def)
      have "files (write_needs_id b (needs_id_dir b) rest ?w) p = Some (needs_id_doc b R)"
        by (rule Cons.IH [OF 1 2 Cons.prems(3) Cons.prems(4) uniq])
      with Some show ?thesis by (simp only: write_needs_id_step option.case)
    qed
  qed
qed

lemma ancestors_self: "p \<in> set (ancestors p)"
  by (subst ancestors.simps) simp

lemma ensure_needs_dir:
  assumes "exists w d \<or> makedirs_ok w d"
  shows "\<exists>w1. (if \<not> exists w d then makedirs d w else Inr w) = Inr w1
           \<and> files w1 = files w \<and> written w1 = written w \<and> logged w1 = logged w
           \<and> write_raises w1 = write_raises w \<and> makedirs_raises w1 = makedirs_raises w
           \<and> dirs w \<subseteq> dirs w1 \<and> exists w1 d"
proof (cases "exists w d")
  case True
  then show ?thesis by simp
next
  case False
  with assms have ok: "d \<noteq> []" "makedirs_raises w d = None"
    by (simp_all add: makedirs_ok_def)
  have "d \<in> dirs w \<union> set (filter (\<lambda>x. x \<noteq> []) (ancestors d))"
    using ok(1) ancestors_self [of d] by simp
  with False ok show ?thesis
    by (simp add: makedirs_def exists_def)
qed

subsection \<open>The diagram loop\<close>

lemma ancestors_closed:
  "d \<in> set (ancestors p) \<Longrightarrow> set (ancestors d) \<subseteq> set (ancestors p)"
proof (induction p rule: ancestors.induct)
  case (1 p)
  show ?case
  proof (cases "dirname p = p")
    case True
    then have "ancestors p = [p]" by (subst ancestors.simps) simp
    with "1.prems" show ?thesis by simp
  next
    case False
    then have a: "ancestors p = p # ancestors (dirname p)" by (subst ancestors.simps) simp
    show ?thesis
    proof (cases "d = p")
      case True
      then show ?thesis by simp
    next
      case ne: False
      with "1.prems" a have "d \<in> set (ancestors (dirname p))" by simp
      with False have "set (ancestors d) \<subseteq> set (ancestors (dirname p))" by (rule "1.IH")
      with a show ?thesis by auto
    qed
  qed
qed

lemma store_needumls_step:
  assumes t: "truthy_opt (save u)" and ok: "needuml_storable out w u"
  shows "\<exists>w2. store_needumls out (u # us) w = store_needumls out us w2
     \<and> files w2 = (files w)(join out (the (save u)) \<mapsto> Text (content_calculated u))
     \<and> written w2 = written w @ [(join out (the (save u)), Text (content_calculated u))]
     \<and> logged w2 = logged w @ [(INFO, ''Storing needuml data to file ''
                                          @ join out (the (save u)) @ ''.'')]
     \<and> write_raises w2 = write_raises w \<and> makedirs_raises w2 = makedirs_raises w
     \<and> exists w2 (dirname (join out (the (save u))))
     \<and> (dirs w2 = dirs w
          \<or> dirs w2 = dirs w \<union> set (filter (\<lambda>x. x \<noteq> [])
                                       (ancestors (dirname (join out (the (save u)))))))"
proof -
  let ?p = "join out (the (save u))"
  let ?d = "dirname ?p"
  from ok have wr: "write_raises w ?p (Text (content_calculated u)) = None"
    and dir: "exists w ?d \<or> makedirs_ok w ?d"
    by (simp_all add: needuml_storable_def)
  let ?msg = "''Storing needuml data to file '' @ ?p @ ''.''"
  show ?thesis
  proof (cases "exists w ?d")
    case True
    let ?w2 = "(log_info ?msg w)\<lparr>files := (files w)(?p \<mapsto> Text (content_calculated u)),
                 written := written w @ [(?p, Text (content_calculated u))]\<rparr>"
    have eq: "store_needumls out (u # us) w = store_needumls out us ?w2"
      using t wr True by (simp add: Let_def write_file_def log_info_def)
    have ex: "exists ?w2 ?d"
      using True by (auto simp add: exists_def log_info_def)
    show ?thesis
      apply (rule exI [of _ ?w2])
      apply (intro conjI)
            apply (rule eq)
           apply (simp_all add: log_info_def)[5]
       apply (rule ex)
      apply (simp add: log_info_def)
      done
  next
    case False
    with dir have mk: "?d \<noteq> []" "makedirs_raises w ?d = None"
      by (simp_all add: makedirs_ok_def)
    let ?w1 = "w\<lparr>dirs := dirs w \<union> set (filter (\<lambda>x. x \<noteq> []) (ancestors ?d))\<rparr>"
    let ?w2 = "(log_info ?msg ?w1)\<lparr>files := (files w)(?p \<mapsto> Text (content_calculated u)),
                 written := written w @ [(?p, Text (content_calculated u))]\<rparr>"
    have m: "makedirs ?d w = Inr ?w1"
      using mk by (simp add: makedirs_def)
    have eq: "store_needumls out (u # us) w = store_needumls out us ?w2"
      using t wr False by (simp add: Let_def m write_file_def log_info_def)
    have "?d \<in> set (filter (\<lambda>x. x \<noteq> []) (ancestors ?d))"
      using mk(1) ancestors_self [of ?d] by simp
    then have ex: "exists ?w2 ?d"
      by (simp add: exists_def log_info_def)
    show ?thesis
      apply (rule exI [of _ ?w2])
      apply (intro conjI)
            apply (rule eq)
           apply (simp_all add: log_info_def)[5]
       apply (rule ex)
      apply (simp add: log_info_def)
      done
  qed
qed

lemma exists_mono:
  "dirs w \<subseteq> dirs w2 \<Longrightarrow> dom (files w) \<subseteq> dom (files w2) \<Longrightarrow> exists w d \<Longrightarrow> exists w2 d"
  by (auto simp add: exists_def)

lemma storable_mono:
  assumes "write_raises w2 = write_raises w" "makedirs_raises w2 = makedirs_raises w"
    and "dirs w \<subseteq> dirs w2" "dom (files w) \<subseteq> dom (files w2)"
    and "needuml_storable out w u"
  shows "needuml_storable out w2 u"
  using assms exists_mono [OF assms(3,4)]
  by (auto simp add: needuml_storable_def makedirs_ok_def)

lemma needuml_writes_Cons:
  "needuml_writes out (u # us) =
     (if truthy_opt (save u)
      then (join out (the (save u)), Text (content_calculated u)) # needuml_writes out us
      else needuml_writes out us)"
  by (simp add: needuml_writes_def)

lemma needuml_notes_Cons:
  "needuml_notes out (u # us) =
     (if truthy_opt (save u)
      then (INFO, ''Storing needuml data to file '' @ join out (the (save u)) @ ''.'')
             # needuml_notes out us
      else needuml_notes out us)"
  by (simp add: needuml_notes_def)

lemma apply_writes_Cons: "apply_writes fs ((p, c) # ws) = apply_writes (fs(p \<mapsto> c)) ws"
  by (simp add: apply_writes_def)

lemma store_needumls_run:
  assumes "\<forall>u\<in>set us. truthy_opt (save u) \<longrightarrow> needuml_storable out w u"
  shows "\<exists>w'. store_needumls out us w = Inr w'
      \<and> written w' = written w @ needuml_writes out us
      \<and> files w' = apply_writes (files w) (needuml_writes out us)
      \<and> logged w' = logged w @ needuml_notes out us
      \<and> write_raises w' = write_raises w \<and> makedirs_raises w' = makedirs_raises w
      \<and> dirs w \<subseteq> dirs w' \<and> dom (files w) \<subseteq> dom (files w')
      \<and> (\<forall>u\<in>set us. truthy_opt (save u) \<longrightarrow> exists w' (dirname (join out (the (save u)))))
      \<and> (\<forall>d\<in>dirs w'. d \<in> dirs w \<or> set (filter (\<lambda>x. x \<noteq> []) (ancestors d)) \<subseteq> dirs w')"
  using assms
proof (induction us arbitrary: w)
  case Nil
  then show ?case by (simp add: needuml_writes_def needuml_notes_def apply_writes_def)
next
  case (Cons u us)
  show ?case
  proof (cases "truthy_opt (save u)")
    case False
    from Cons.prems have "\<forall>x\<in>set us. truthy_opt (save x) \<longrightarrow> needuml_storable out w x"
      by simp
    from Cons.IH [OF this] obtain w' where w':
      "store_needumls out us w = Inr w'"
      "written w' = written w @ needuml_writes out us"
      "files w' = apply_writes (files w) (needuml_writes out us)"
      "logged w' = logged w @ needuml_notes out us"
      "write_raises w' = write_raises w" "makedirs_raises w' = makedirs_raises w"
      "dirs w \<subseteq> dirs w'" "dom (files w) \<subseteq> dom (files w')"
      "\<forall>x\<in>set us. truthy_opt (save x) \<longrightarrow> exists w' (dirname (join out (the (save x))))"
      "\<forall>d\<in>dirs w'. d \<in> dirs w \<or> set (filter (\<lambda>x. x \<noteq> []) (ancestors d)) \<subseteq> dirs w'"
      by blast
    have eq: "store_needumls out (u # us) w = Inr w'"
      using False w'(1) by simp
    show ?thesis
      apply (rule exI [of _ w'])
      apply (intro conjI)
               apply (rule eq)
      using False w' apply (simp_all add: needuml_writes_Cons needuml_notes_Cons)
      done
  next
    case True
    let ?p = "join out (the (save u))"
    let ?c = "Text (content_calculated u)"
    let ?d = "dirname ?p"
    let ?anc = "set (filter (\<lambda>x. x \<noteq> []) (ancestors ?d))"
    from Cons.prems True have "needuml_storable out w u" by simp
    from store_needumls_step [OF True this, of us] obtain w2 where w2:
      "store_needumls out (u # us) w = store_needumls out us w2"
      "files w2 = (files w)(?p \<mapsto> ?c)"
      "written w2 = written w @ [(?p, ?c)]"
      "logged w2 = logged w @ [(INFO, ''Storing needuml data to file '' @ ?p @ ''.'')]"
      "write_raises w2 = write_raises w" "makedirs_raises w2 = makedirs_raises w"
      "exists w2 ?d"
      "dirs w2 = dirs w \<or> dirs w2 = dirs w \<union> ?anc"
      by blast
    have d2: "dirs w \<subseteq> dirs w2" using w2(8) by auto
    have f2: "dom (files w) \<subseteq> dom (files w2)" using w2(2) by auto
    have "\<forall>x\<in>set us. truthy_opt (save x) \<longrightarrow> needuml_storable out w2 x"
      using Cons.prems storable_mono [OF w2(5) w2(6) d2 f2] by simp
    from Cons.IH [OF this] obtain w' where w':
      "store_needumls out us w2 = Inr w'"
      "written w' = written w2 @ needuml_writes out us"
      "files w' = apply_writes (files w2) (needuml_writes out us)"
      "logged w' = logged w2 @ needuml_notes out us"
      "write_raises w' = write_raises w2" "makedirs_raises w' = makedirs_raises w2"
      "dirs w2 \<subseteq> dirs w'" "dom (files w2) \<subseteq> dom (files w')"
      "\<forall>x\<in>set us. truthy_opt (save x) \<longrightarrow> exists w' (dirname (join out (the (save x))))"
      "\<forall>d\<in>dirs w'. d \<in> dirs w2 \<or> set (filter (\<lambda>x. x \<noteq> []) (ancestors d)) \<subseteq> dirs w'"
      by blast
    have eq: "store_needumls out (u # us) w = Inr w'"
      using w2(1) w'(1) by (simp only:)
    have wr: "written w' = written w @ needuml_writes out (u # us)"
      using True w'(2) w2(3) by (simp add: needuml_writes_Cons)
    have fs: "files w' = apply_writes (files w) (needuml_writes out (u # us))"
      using True w'(3) w2(2) by (simp add: needuml_writes_Cons apply_writes_Cons)
    have lg: "logged w' = logged w @ needuml_notes out (u # us)"
      using True w'(4) w2(4) by (simp add: needuml_notes_Cons)
    have ex: "\<forall>x\<in>set (u # us). truthy_opt (save x)
                \<longrightarrow> exists w' (dirname (join out (the (save x))))"
      using w'(9) exists_mono [OF w'(7) w'(8) w2(7)] by simp
    have cl: "\<forall>d\<in>dirs w'. d \<in> dirs w \<or> set (filter (\<lambda>x. x \<noteq> []) (ancestors d)) \<subseteq> dirs w'"
    proof
      fix d assume d: "d \<in> dirs w'"
      show "d \<in> dirs w \<or> set (filter (\<lambda>x. x \<noteq> []) (ancestors d)) \<subseteq> dirs w'"
      proof (cases "d \<in> dirs w2")
        case False
        with d w'(10) show ?thesis by blast
      next
        case in2: True
        show ?thesis
        proof (cases "d \<in> dirs w")
          case True
          then show ?thesis by simp
        next
          case False
          with in2 w2(8) have dw: "dirs w2 = dirs w \<union> ?anc" and "d \<in> ?anc" by auto
          then have "d \<in> set (ancestors ?d)" by simp
          then have "set (ancestors d) \<subseteq> set (ancestors ?d)" by (rule ancestors_closed)
          then have "set (filter (\<lambda>x. x \<noteq> []) (ancestors d)) \<subseteq> ?anc" by auto
          also have "\<dots> \<subseteq> dirs w2" using dw by simp
          also have "\<dots> \<subseteq> dirs w'" by (rule w'(7))
          finally show ?thesis by simp
        qed
      qed
    qed
    show ?thesis
      apply (rule exI [of _ w'])
      apply (intro conjI)
               apply (rule eq)
              apply (rule wr)
             apply (rule fs)
            apply (rule lg)
           apply (simp add: w'(5) w2(5))
          apply (simp add: w'(6) w2(6))
         apply (rule subset_trans [OF d2 w'(7)])
        apply (rule subset_trans [OF f2 w'(8)])
       apply (rule ex)
      apply (rule cl)
      done
  qed
qed

section \<open>Properties of the builder base\<close>

text \<open>
  C3, as amended. \<open>get_outdated_docs\<close> reports exactly the documents the environment has
  found, for every builder and environment: every found document is reported, and nothing
  else is. (The claim that it reports no document fails whenever a document was found.)
\<close>

theorem get_outdated_docs_is_found_docs:
  "get_outdated_docs b = found_docs (env b)"
  by (simp add: get_outdated_docs_def)

text \<open>
  C3, the claim as stated fails: with one found document \<open>index\<close>, the document is
  reported as outdated.
\<close>

theorem get_outdated_docs_not_empty:
  "get_outdated_docs
     \<lparr>cls = NeedsBuilderBase,
      env = \<lparr>env_config = \<lparr>version = None, needs_file = None, builder_filter = [],
                build_json = False, build_json_per_id = False,
                build_json_per_id_path = [], build_needumls = []\<rparr>,
             found_docs = {''index''}, env_needs = [], env_filters = [], env_umls = []\<rparr>,
      outdir = ''out'', srcdir = ''src''\<rparr> \<noteq> {}"
  by (simp add: get_outdated_docs_def)

text \<open>
  C10. \<open>NeedsBuilder\<close> sets \<open>skip_write_phase\<close> to \<open>False\<close> and its \<open>write\<close> is the
  host's write phase on the same arguments; the base class, \<open>NeedumlsBuilder\<close> and
  \<open>NeedsIdBuilder\<close> have \<open>skip_write_phase = True\<close> and their \<open>write\<close> leaves the state
  as it is.
\<close>

theorem write_phase_only_for_NeedsBuilder:
  "\<not> skip_write_phase NeedsBuilder
   \<and> builder_write super_write (b\<lparr>cls := NeedsBuilder\<rparr>) ds us m s = super_write ds us m s
   \<and> skip_write_phase NeedsBuilderBase
   \<and> skip_write_phase NeedumlsBuilder
   \<and> skip_write_phase NeedsIdBuilder
   \<and> builder_write super_write (b\<lparr>cls := NeedsBuilderBase\<rparr>) ds us m s = s
   \<and> builder_write super_write (b\<lparr>cls := NeedumlsBuilder\<rparr>) ds us m s = s
   \<and> builder_write super_write (b\<lparr>cls := NeedsIdBuilder\<rparr>) ds us m s = s"
  by (simp add: builder_write_def)

section \<open>Properties of the JSON needs exporter\<close>

text \<open>
  C1. Whenever the final write does not raise, the file \<open>NeedsBuilder.finish\<close> writes
  holds, under the current version, exactly the list the filter evaluator returns for the
  registry's needs and the configured \<open>builder_filter\<close>, in that order; as a set, these
  are the needs of the registry the filter accepts, no more and no fewer. This holds for
  every registry, every filter expression and every earlier state of the disk.
\<close>

theorem NeedsBuilder_finish_exports_filtered:
  assumes "write_raises w (needs_json_path b) (needs_json_doc accepts b w) = None"
  shows "\<exists>w' vs. finish_NeedsBuilder accepts b w = Inr w'
           \<and> needs_json_doc accepts b w = JsonDoc vs
           \<and> files w' (needs_json_path b) = Some (JsonDoc vs)
           \<and> needs_of_version vs (current_version (env b))
               = filter_needs accepts (env_config (env b)) (dict_values (env_needs (env b)))
                   (builder_filter (env_config (env b)))
           \<and> set (needs_of_version vs (current_version (env b)))
               = {n \<in> set (dict_values (env_needs (env b))).
                    accepts (env_config (env b)) (builder_filter (env_config (env b))) n}"
  using assms
  by (simp add: finish_NeedsBuilder_cases needs_json_doc_def Let_def log_info_def needs_collected)
     (simp add: filter_needs_def)


theorem NeedsBuilder_finish_exports_filtered_witness:
  "\<exists>w' vs. finish_NeedsBuilder example_accepts (example_builder NeedsBuilder) example_world = Inr w'
     \<and> files w' ''out/needs.json'' = Some (JsonDoc vs)
     \<and> needs_of_version vs ''1.0'' = [R1, R2]"
proof -
  have h: "write_raises example_world (needs_json_path (example_builder NeedsBuilder))
             (needs_json_doc example_accepts (example_builder NeedsBuilder) example_world) = None"
    by (simp add: example_world_def needs_json_path_def example_builder_def example_env_def
        example_config_def default_file_def NeedsList_def truthy_opt_def truthy_str_def join_def)
  from NeedsBuilder_finish_exports_filtered [OF h] show ?thesis
    by (simp add: needs_json_path_def example_builder_def example_env_def
        example_config_def default_file_def NeedsList_def truthy_opt_def truthy_str_def join_def
        current_version_def filter_needs_def dict_values_def example_accepts_def) blast
qed

text \<open>
  C2. Whatever base state was loaded, the entry \<open>finish\<close> writes for the current
  version is the one an empty base state gives: nothing stored under the version before
  survives, and every need in the entry is a need of the current build. (Stated for a
  final write that does not raise.)
\<close>

theorem NeedsBuilder_finish_wipes_version:
  assumes "write_raises w (needs_json_path b) (needs_json_doc accepts b w) = None"
  shows "\<exists>w' vs. finish_NeedsBuilder accepts b w = Inr w'
           \<and> files w' (needs_json_path b) = Some (JsonDoc vs)
           \<and> set (needs_of_version vs (current_version (env b)))
               \<subseteq> set (dict_values (env_needs (env b)))
           \<and> map_of vs (current_version (env b))
               = map_of (versions (collected_needs_list accepts b
                   (NeedsList (env_config (env b)) (outdir b) (srcdir b))))
                   (current_version (env b))"
  using assms
  by (simp add: finish_NeedsBuilder_cases needs_json_doc_def Let_def log_info_def needs_collected
      filter_needs_subset entry_collected [of accepts b "loaded_needs_list b w"])


theorem NeedsBuilder_finish_wipes_version_witness:
  "needs_of_version (versions (loaded_needs_list (example_builder NeedsBuilder) example_world))
     ''1.0'' = [R0]
   \<and> (\<exists>w' vs. finish_NeedsBuilder example_accepts (example_builder NeedsBuilder) example_world
                 = Inr w'
          \<and> files w' ''out/needs.json'' = Some (JsonDoc vs)
          \<and> set (needs_of_version vs ''1.0'') \<subseteq> {R1, R2})"
proof -
  have h: "write_raises example_world (needs_json_path (example_builder NeedsBuilder))
             (needs_json_doc example_accepts (example_builder NeedsBuilder) example_world) = None"
    by (simp add: example_world_def needs_json_path_def example_builder_def example_env_def
        example_config_def default_file_def NeedsList_def truthy_opt_def truthy_str_def join_def)
  have base: "needs_of_version
                (versions (loaded_needs_list (example_builder NeedsBuilder) example_world))
                ''1.0'' = [R0]"
    by (simp add: loaded_needs_list_def Let_def load_json_def example_world_def
        example_builder_def example_env_def example_config_def NeedsList_def truthy_opt_def
        truthy_str_def needs_of_version_def)
  from NeedsBuilder_finish_wipes_version [OF h] have
    "\<exists>w' vs. finish_NeedsBuilder example_accepts (example_builder NeedsBuilder) example_world
                 = Inr w'
          \<and> files w' ''out/needs.json'' = Some (JsonDoc vs)
          \<and> set (needs_of_version vs ''1.0'') \<subseteq> {R1, R2}"
    by (simp add: needs_json_path_def example_builder_def example_env_def
        example_config_def default_file_def NeedsList_def truthy_opt_def truthy_str_def join_def
        current_version_def dict_values_def) blast
  with base show ?thesis by (rule conjI)
qed

text \<open>
  C4. Running \<open>finish\<close> twice in succession with the same registry, filters and
  configuration: both runs return, and the file \<open>finish\<close> writes (hence its entry for
  every version) is after the second run what it was after the first; the second run
  changes no file at all.
\<close>

theorem NeedsBuilder_finish_idempotent:
  "\<exists>w1 w2. finish_NeedsBuilder accepts b w = Inr w1
     \<and> finish_NeedsBuilder accepts b w1 = Inr w2
     \<and> files w2 (needs_json_path b) = files w1 (needs_json_path b)
     \<and> files w2 = files w1"
proof -
  let ?T = "needs_json_path b"
  let ?D = "needs_json_doc accepts b w"
  obtain w1 where r1: "finish_NeedsBuilder accepts b w = Inr w1"
    and o1: "write_raises w1 = write_raises w"
    and f1: "files w1 = (case write_raises w ?T ?D of
                           None \<Rightarrow> (files w)(?T \<mapsto> ?D) | Some m \<Rightarrow> files w)"
    using finish_NeedsBuilder_world [of accepts b w] by blast
  obtain w2 where r2: "finish_NeedsBuilder accepts b w1 = Inr w2"
    and f2: "files w2 = (case write_raises w1 ?T (needs_json_doc accepts b w1) of
                           None \<Rightarrow> (files w1)(?T \<mapsto> needs_json_doc accepts b w1)
                         | Some m \<Rightarrow> files w1)"
    using finish_NeedsBuilder_world [of accepts b w1] by blast
  have d: "needs_json_doc accepts b w1 = ?D"
  proof (cases "write_raises w ?T ?D")
    case None
    with f1 have "files w1 = (files w)(?T \<mapsto> ?D)" by simp
    then show ?thesis by (rule doc_files_upd)
  next
    case (Some m)
    with f1 have "files w1 = files w" by simp
    then show ?thesis by (rule doc_files_cong)
  qed
  have "files w2 = files w1"
  proof (cases "write_raises w ?T ?D")
    case None
    with f1 have "files w1 ?T = Some ?D" by simp
    then have "(files w1)(?T \<mapsto> ?D) = files w1" by (rule map_upd_triv)
    with None f2 show ?thesis by (simp only: d o1 option.case)
  next
    case (Some m)
    with f2 show ?thesis by (simp only: d o1 option.case)
  qed
  with r1 r2 show ?thesis by simp
qed

text \<open>
  C6. \<open>NeedsBuilder.finish\<close> always returns normally. When the final write raises, the
  exception is logged as an error with its message and the disk is left as it was; when
  the write succeeds, the success message is logged at informational level.
\<close>

theorem NeedsBuilder_finish_catches_write_error:
  "\<exists>w'. finish_NeedsBuilder accepts b w = Inr w'
     \<and> (case write_raises w (needs_json_path b) (needs_json_doc accepts b w) of
          Some m \<Rightarrow>
            logged w' = logged (note_unused_needs_json b w)
                          @ [(ERROR, ''Error during writing json file: '' @ m)]
            \<and> files w' = files w \<and> written w' = written w
        | None \<Rightarrow>
            logged w' = logged (note_unused_needs_json b w)
                          @ [(INFO, ''Needs successfully exported'')]
            \<and> written w' = written w @ [(needs_json_path b, needs_json_doc accepts b w)])"
  by (simp add: finish_NeedsBuilder_cases Let_def needs_json_doc_def log_info_def log_error_def
      split: option.split)

theorem NeedsBuilder_finish_catches_write_error_witness:
  "\<exists>w'. finish_NeedsBuilder example_accepts (example_builder NeedsBuilder) full_world = Inr w'
     \<and> logged w' = [(ERROR, ''Error during writing json file: disk full'')]
     \<and> files w' = files full_world \<and> written w' = []"
  using NeedsBuilder_finish_catches_write_error
          [of example_accepts "example_builder NeedsBuilder" full_world]
  by (simp add: full_world_def example_world_def note_unused_needs_json_def example_builder_def
      example_env_def example_config_def truthy_opt_def truthy_str_def)

section \<open>Properties of the per-need JSON exporter\<close>

lemma finish_NeedsIdBuilder_run:
  assumes "exists w (needs_id_dir b) \<or> makedirs_ok w (needs_id_dir b)"
  shows "\<exists>w1. files w1 = files w \<and> written w1 = written w \<and> logged w1 = logged w
      \<and> write_raises w1 = write_raises w
      \<and> finish_NeedsIdBuilder accepts b w =
          Inr (log_info ''Needs_id successfully exported''
                 (write_needs_id b (needs_id_dir b)
                    (filter_needs accepts (env_config (env b)) (dict_values (env_needs (env b)))
                       (builder_filter (env_config (env b)))) w1))"
proof -
  from ensure_needs_dir [OF assms] obtain w1 where w1:
    "(if \<not> exists w (needs_id_dir b) then makedirs (needs_id_dir b) w else Inr w) = Inr w1"
    "files w1 = files w" "written w1 = written w" "logged w1 = logged w"
    "write_raises w1 = write_raises w"
    by blast
  have "finish_NeedsIdBuilder accepts b w =
          Inr (log_info ''Needs_id successfully exported''
                 (write_needs_id b (needs_id_dir b)
                    (filter_needs accepts (env_config (env b)) (dict_values (env_needs (env b)))
                       (builder_filter (env_config (env b)))) w1))"
    by (simp only: finish_NeedsIdBuilder_def Let_def w1(1) sum.case)
  with w1 show ?thesis by blast
qed

text \<open>
  C5. Let \<open>R\<close> be a need that survives the configured filter, let the output
  subdirectory be there or creatable, and let the write of \<open>R\<close>'s file not raise. Then
  \<open>NeedsIdBuilder.finish\<close> returns and has written, to the file named after \<open>R\<close>'s id
  with the suffix \<open>.json\<close> in the output subdirectory, the state of a fresh list with the
  current version wiped and \<open>R\<close> added: one entry, for the current version, holding
  exactly \<open>R\<close>. When no other surviving need is written to the same file (ids are
  unique), that is the content of the file at the end.
\<close>

theorem NeedsIdBuilder_finish_writes_need:
  assumes "R \<in> set (filter_needs accepts (env_config (env b)) (dict_values (env_needs (env b)))
                      (builder_filter (env_config (env b))))"
    and "exists w (needs_id_dir b) \<or> makedirs_ok w (needs_id_dir b)"
    and "write_raises w (needs_id_path b R) (needs_id_doc b R) = None"
  shows "\<exists>w'. finish_NeedsIdBuilder accepts b w = Inr w'
     \<and> needs_id_path b R = join (join (outdir b) (build_json_per_id_path (env_config (env b))))
                              (need_id R @ ''.json'')
     \<and> needs_id_doc b R = JsonDoc (versions (add_need
          (wipe_version (NeedsList (env_config (env b)) (outdir b) (srcdir b))
             (current_version (env b))) (current_version (env b)) R))
     \<and> needs_id_doc b R = JsonDoc [(current_version (env b), \<lparr>needs = [R], filters = []\<rparr>)]
     \<and> (needs_id_path b R, needs_id_doc b R) \<in> set (written w')
     \<and> ((\<forall>q\<in>set (filter_needs accepts (env_config (env b)) (dict_values (env_needs (env b)))
                      (builder_filter (env_config (env b)))).
             needs_id_path b q = needs_id_path b R \<longrightarrow> q = R)
          \<longrightarrow> files w' (needs_id_path b R) = Some (needs_id_doc b R))"
proof -
  let ?ns = "filter_needs accepts (env_config (env b)) (dict_values (env_needs (env b)))
               (builder_filter (env_config (env b)))"
  from finish_NeedsIdBuilder_run [OF assms(2), of accepts] obtain w1 where w1:
    "files w1 = files w" "written w1 = written w" "write_raises w1 = write_raises w"
    "finish_NeedsIdBuilder accepts b w =
       Inr (log_info ''Needs_id successfully exported''
              (write_needs_id b (needs_id_dir b) ?ns w1))"
    by blast
  let ?w' = "log_info ''Needs_id successfully exported'' (write_needs_id b (needs_id_dir b) ?ns w1)"
  have wr: "written ?w' = written w @ map (\<lambda>nd. (needs_id_path b nd, needs_id_doc b nd))
              (filter (\<lambda>nd. write_raises w (needs_id_path b nd) (needs_id_doc b nd) = None) ?ns)"
    using write_needs_id_written [OF w1(3), of b ?ns] by (simp add: log_info_def w1(2))
  have inw: "(needs_id_path b R, needs_id_doc b R) \<in> set (written ?w')"
    unfolding wr using assms(1,3) by auto
  have fin: "files ?w' (needs_id_path b R) = Some (needs_id_doc b R)"
    if u: "\<forall>q\<in>set ?ns. needs_id_path b q = needs_id_path b R \<longrightarrow> q = R"
  proof -
    have "files (write_needs_id b (needs_id_dir b) ?ns w1) (needs_id_path b R)
            = Some (needs_id_doc b R)"
      by (rule write_needs_id_files [OF w1(3) _ assms(3) refl u]) (simp add: assms(1))
    then show ?thesis by (simp add: log_info_def)
  qed
  have doc: "needs_id_doc b R = JsonDoc (versions (add_need
          (wipe_version (NeedsList (env_config (env b)) (outdir b) (srcdir b))
             (current_version (env b))) (current_version (env b)) R))"
    using versions_needs_id_list [of b R] by (simp add: needs_id_list_def Let_def)
  show ?thesis
    apply (rule exI [of _ ?w'])
    apply (intro conjI impI)
         apply (rule w1(4))
        apply (simp add: needs_id_path_def needs_id_dir_def)
       apply (rule doc)
      apply (simp add: needs_id_doc_def)
     apply (rule inw)
    apply (erule fin)
    done
qed

theorem NeedsIdBuilder_finish_writes_need_witness:
  "\<exists>w'. finish_NeedsIdBuilder example_accepts (example_builder NeedsIdBuilder) example_world
          = Inr w'
     \<and> (''out/needs_id/R1.json'', JsonDoc [(''1.0'', \<lparr>needs = [R1], filters = []\<rparr>)])
          \<in> set (written w')
     \<and> files w' ''out/needs_id/R1.json''
          = Some (JsonDoc [(''1.0'', \<lparr>needs = [R1], filters = []\<rparr>)])"
proof -
  let ?b = "example_builder NeedsIdBuilder"
  have p: "needs_id_path ?b R1 = ''out/needs_id/R1.json''"
       "needs_id_path ?b R2 = ''out/needs_id/R2.json''"
    by (simp_all add: needs_id_path_def needs_id_dir_def example_builder_def example_env_def
        example_config_def join_def R1_def R2_def)
  have d: "needs_id_doc ?b R1 = JsonDoc [(''1.0'', \<lparr>needs = [R1], filters = []\<rparr>)]"
    by (simp add: needs_id_doc_def current_version_def example_builder_def example_env_def
        example_config_def)
  have ns: "filter_needs example_accepts (env_config (env ?b)) (dict_values (env_needs (env ?b)))
              (builder_filter (env_config (env ?b))) = [R1, R2]"
    by (simp add: filter_needs_def example_accepts_def dict_values_def example_builder_def
        example_env_def)
  have h1: "R1 \<in> set (filter_needs example_accepts (env_config (env ?b))
              (dict_values (env_needs (env ?b))) (builder_filter (env_config (env ?b))))"
    by (simp add: ns)
  have h2: "exists example_world (needs_id_dir ?b) \<or> makedirs_ok example_world (needs_id_dir ?b)"
    by (simp add: makedirs_ok_def needs_id_dir_def example_builder_def example_env_def
        example_config_def join_def example_world_def)
  have h3: "write_raises example_world (needs_id_path ?b R1) (needs_id_doc ?b R1) = None"
    by (simp add: p example_world_def)
  have u: "\<forall>q\<in>set (filter_needs example_accepts (env_config (env ?b))
              (dict_values (env_needs (env ?b))) (builder_filter (env_config (env ?b)))).
             needs_id_path ?b q = needs_id_path ?b R1 \<longrightarrow> q = R1"
    by (simp add: ns p)
  from NeedsIdBuilder_finish_writes_need [OF h1 h2 h3] u show ?thesis
    unfolding p d by blast
qed

text \<open>
  C7. Provided the output subdirectory is there or creatable, \<open>NeedsIdBuilder.finish\<close>
  returns normally whatever the writes do: the files written are, in order, those of
  exactly the surviving needs whose own write does not raise, and each surviving need
  whose write raises leaves one error line naming it; the closing message follows.
\<close>

theorem NeedsIdBuilder_finish_isolates_failures:
  assumes "exists w (needs_id_dir b) \<or> makedirs_ok w (needs_id_dir b)"
  shows "\<exists>w'. finish_NeedsIdBuilder accepts b w = Inr w'
     \<and> written w' = written w @ map (\<lambda>nd. (needs_id_path b nd, needs_id_doc b nd))
         (filter (\<lambda>nd. write_raises w (needs_id_path b nd) (needs_id_doc b nd) = None)
            (filter_needs accepts (env_config (env b)) (dict_values (env_needs (env b)))
               (builder_filter (env_config (env b)))))
     \<and> logged w' = logged w
         @ map (\<lambda>nd. (ERROR, ''Needs-ID Builder '' @ need_id nd @ '' error: ''
                         @ the (write_raises w (needs_id_path b nd) (needs_id_doc b nd))))
             (filter (\<lambda>nd. write_raises w (needs_id_path b nd) (needs_id_doc b nd) \<noteq> None)
                (filter_needs accepts (env_config (env b)) (dict_values (env_needs (env b)))
                   (builder_filter (env_config (env b)))))
         @ [(INFO, ''Needs_id successfully exported'')]"
proof -
  let ?ns = "filter_needs accepts (env_config (env b)) (dict_values (env_needs (env b)))
               (builder_filter (env_config (env b)))"
  from finish_NeedsIdBuilder_run [OF assms, of accepts] obtain w1 where w1:
    "written w1 = written w" "logged w1 = logged w" "write_raises w1 = write_raises w"
    "finish_NeedsIdBuilder accepts b w =
       Inr (log_info ''Needs_id successfully exported''
              (write_needs_id b (needs_id_dir b) ?ns w1))"
    by blast
  let ?w' = "log_info ''Needs_id successfully exported'' (write_needs_id b (needs_id_dir b) ?ns w1)"
  have wr: "written ?w' = written w @ map (\<lambda>nd. (needs_id_path b nd, needs_id_doc b nd))
              (filter (\<lambda>nd. write_raises w (needs_id_path b nd) (needs_id_doc b nd) = None) ?ns)"
    using write_needs_id_written [OF w1(3), of b ?ns] by (simp add: log_info_def w1(1))
  have lg: "logged ?w' = logged w
         @ map (\<lambda>nd. (ERROR, ''Needs-ID Builder '' @ need_id nd @ '' error: ''
                         @ the (write_raises w (needs_id_path b nd) (needs_id_doc b nd))))
             (filter (\<lambda>nd. write_raises w (needs_id_path b nd) (needs_id_doc b nd) \<noteq> None) ?ns)
         @ [(INFO, ''Needs_id successfully exported'')]"
    using write_needs_id_logged [OF w1(3), of b ?ns] by (simp add: log_info_def w1(2))
  show ?thesis
    apply (rule exI [of _ ?w'])
    apply (intro conjI)
      apply (rule w1(4))
     apply (rule wr)
    apply (rule lg)
    done
qed

theorem NeedsIdBuilder_finish_isolates_failures_witness:
  "\<exists>w'. finish_NeedsIdBuilder example_accepts
           (example_builder NeedsIdBuilder\<lparr>env := example_env\<lparr>env_needs := [(''R2'', R2), (''R1'', R1)]\<rparr>\<rparr>)
           example_world = Inr w'
     \<and> written w' = [(''out/needs_id/R1.json'', JsonDoc [(''1.0'', \<lparr>needs = [R1], filters = []\<rparr>)])]
     \<and> logged w' = [(ERROR, ''Needs-ID Builder R2 error: disk full''),
                     (INFO, ''Needs_id successfully exported'')]"
proof -
  let ?b = "example_builder NeedsIdBuilder\<lparr>env := example_env\<lparr>env_needs := [(''R2'', R2), (''R1'', R1)]\<rparr>\<rparr>"
  have h: "exists example_world (needs_id_dir ?b) \<or> makedirs_ok example_world (needs_id_dir ?b)"
    by (simp add: makedirs_ok_def needs_id_dir_def example_builder_def example_env_def
        example_config_def join_def example_world_def)
  from NeedsIdBuilder_finish_isolates_failures [OF h, of example_accepts] show ?thesis
    by (simp add: filter_needs_def example_accepts_def dict_values_def example_builder_def
        example_env_def example_config_def needs_id_path_def needs_id_dir_def join_def
        needs_id_doc_def current_version_def example_world_def R1_def R2_def)
qed

section \<open>Properties of the diagram exporter\<close>

text \<open>
  C8. Let every diagram record with a \<open>save\<close> path be storable. Then
  \<open>NeedumlsBuilder.finish\<close> returns, and its writes are, in the order of the registry,
  exactly one per record with a \<open>save\<close> path: the text \<open>content_calculated\<close>, unchanged,
  to the \<open>save\<close> path joined to the output directory. A record without a \<open>save\<close> path
  causes no write and no log line. After \<open>finish\<close> the directory of every written file
  exists, and every directory that was created has all its parents.
\<close>

theorem NeedumlsBuilder_finish_stores_saved:
  assumes "\<forall>u\<in>set (dict_values (env_umls (env b))).
             truthy_opt (save u) \<longrightarrow> needuml_storable (outdir b) w u"
  shows "\<exists>w'. finish_NeedumlsBuilder b w = Inr w'
      \<and> written w' = written w @ needuml_writes (outdir b) (dict_values (env_umls (env b)))
      \<and> files w' = apply_writes (files w)
                     (needuml_writes (outdir b) (dict_values (env_umls (env b))))
      \<and> logged w' = logged w @ needuml_notes (outdir b) (dict_values (env_umls (env b)))
      \<and> (\<forall>u\<in>set (dict_values (env_umls (env b))).
            truthy_opt (save u) \<longrightarrow> exists w' (dirname (join (outdir b) (the (save u)))))
      \<and> (\<forall>d\<in>dirs w'. d \<in> dirs w \<or> set (filter (\<lambda>x. x \<noteq> []) (ancestors d)) \<subseteq> dirs w')"
proof -
  from store_needumls_run [OF assms] obtain w' where
    "store_needumls (outdir b) (dict_values (env_umls (env b))) w = Inr w'"
    "written w' = written w @ needuml_writes (outdir b) (dict_values (env_umls (env b)))"
    "files w' = apply_writes (files w)
                  (needuml_writes (outdir b) (dict_values (env_umls (env b))))"
    "logged w' = logged w @ needuml_notes (outdir b) (dict_values (env_umls (env b)))"
    "\<forall>u\<in>set (dict_values (env_umls (env b))).
        truthy_opt (save u) \<longrightarrow> exists w' (dirname (join (outdir b) (the (save u))))"
    "\<forall>d\<in>dirs w'. d \<in> dirs w \<or> set (filter (\<lambda>x. x \<noteq> []) (ancestors d)) \<subseteq> dirs w'"
    by blast
  then show ?thesis
    unfolding finish_NeedumlsBuilder_def by blast
qed

theorem NeedumlsBuilder_finish_stores_saved_witness:
  "\<exists>w'. finish_NeedumlsBuilder (example_builder NeedumlsBuilder) example_world = Inr w'
     \<and> written w' = [(''out/sub/dir/out.puml'', Text ''@startuml'')]
     \<and> files w' ''out/sub/dir/out.puml'' = Some (Text ''@startuml'')
     \<and> logged w' = [(INFO, ''Storing needuml data to file out/sub/dir/out.puml.'')]
     \<and> exists w' ''out/sub/dir''"
proof -
  let ?b = "example_builder NeedumlsBuilder"
  let ?u1 = "\<lparr>save = Some ''sub/dir/out.puml'', content_calculated = ''@startuml''\<rparr>"
  let ?u2 = "\<lparr>save = None, content_calculated = ''@enduml''\<rparr>"
  have us: "dict_values (env_umls (env ?b)) = [?u1, ?u2]"
    by (simp add: dict_values_def example_builder_def example_env_def)
  have out: "outdir ?b = ''out''" by (simp add: example_builder_def)
  have p: "join ''out'' ''sub/dir/out.puml'' = ''out/sub/dir/out.puml''"
    by (simp add: join_def)
  have d: "dirname ''out/sub/dir/out.puml'' = ''out/sub/dir''"
    by (simp add: dirname_def)
  have h: "\<forall>u\<in>set (dict_values (env_umls (env ?b))).
             truthy_opt (save u) \<longrightarrow> needuml_storable (outdir ?b) example_world u"
    unfolding us out
    by (simp add: truthy_opt_def truthy_str_def needuml_storable_def p d makedirs_ok_def
        example_world_def)
  have ws: "needuml_writes ''out'' [?u1, ?u2] = [(''out/sub/dir/out.puml'', Text ''@startuml'')]"
    by (simp add: needuml_writes_def truthy_opt_def truthy_str_def p)
  have ns: "needuml_notes ''out'' [?u1, ?u2]
            = [(INFO, ''Storing needuml data to file out/sub/dir/out.puml.'')]"
    by (simp add: needuml_notes_def truthy_opt_def truthy_str_def p)
  from NeedumlsBuilder_finish_stores_saved [OF h] obtain w' where w':
    "finish_NeedumlsBuilder ?b example_world = Inr w'"
    "written w' = written example_world @ needuml_writes ''out'' [?u1, ?u2]"
    "files w' = apply_writes (files example_world) (needuml_writes ''out'' [?u1, ?u2])"
    "logged w' = logged example_world @ needuml_notes ''out'' [?u1, ?u2]"
    "\<forall>u\<in>set [?u1, ?u2].
        truthy_opt (save u) \<longrightarrow> exists w' (dirname (join ''out'' (the (save u))))"
    unfolding us out by blast
  have 1: "written w' = [(''out/sub/dir/out.puml'', Text ''@startuml'')]"
    using w'(2) by (simp add: ws example_world_def)
  have 2: "files w' ''out/sub/dir/out.puml'' = Some (Text ''@startuml'')"
    using w'(3) by (simp add: ws apply_writes_def)
  have 3: "logged w' = [(INFO, ''Storing needuml data to file out/sub/dir/out.puml.'')]"
    using w'(4) by (simp add: ns example_world_def)
  have 4: "exists w' ''out/sub/dir''"
    using w'(5) by (simp add: truthy_opt_def truthy_str_def p d)
  from w'(1) 1 2 3 4 show ?thesis by blast
qed

section \<open>Properties of the post-build hooks\<close>

lemma try_construct_builder:
  "try_construct c app e =
     Inr \<lparr>cls = c, env = e, outdir = app_outdir app, srcdir = app_srcdir app\<rparr>"
  by (simp add: try_construct_def Builder_env_def Builder_app_def set_environment_def)

text \<open>
  C9. Each of the three hooks returns the state it was given, unchanged (no file, no
  directory, no log line), when its configuration flag is unset or false, or when the
  builder of the primary build is already of the hook's builder class. Only otherwise
  does it construct a builder of that class, bound to the application's environment and
  directories (for the diagrams, with the configured subfolder joined to the output
  directory), and the hook's result is that builder's \<open>finish\<close>. The diagram hook
  constructs with the environment argument on hosts of major version 5 or later, and the
  \<open>TypeError\<close> of a host whose builders do not take that argument is not caught there.
\<close>

theorem post_build_hooks_frame:
  "build_needs_json accepts app exc w =
     (if \<not> build_json (env_config (app_env app)) \<or> cls (app_builder app) = NeedsBuilder
      then Inr w
      else finish_NeedsBuilder accepts
             \<lparr>cls = NeedsBuilder, env = app_env app,
              outdir = app_outdir app, srcdir = app_srcdir app\<rparr> w)
   \<and> build_needs_id_json accepts app exc w =
     (if \<not> build_json_per_id (env_config (app_env app)) \<or> cls (app_builder app) = NeedsIdBuilder
      then Inr w
      else finish_NeedsIdBuilder accepts
             \<lparr>cls = NeedsIdBuilder, env = app_env app,
              outdir = app_outdir app, srcdir = app_srcdir app\<rparr> w)
   \<and> build_needumls_pumls app exc w =
     (if \<not> truthy_str (build_needumls (env_config (app_env app)))
         \<or> cls (app_builder app) = NeedumlsBuilder
      then Inr w
      else if 5 \<le> version_major app \<and> \<not> builder_takes_env app
      then Inl (TypeError ''__init__() takes 2 positional arguments but 3 were given'')
      else finish_NeedumlsBuilder
             \<lparr>cls = NeedumlsBuilder, env = app_env app,
              outdir = join (app_outdir app) (build_needumls (env_config (app_env app))),
              srcdir = app_srcdir app\<rparr> w)"
  by (simp add: build_needs_json_def build_needs_id_json_def build_needumls_pumls_def Let_def
      isinstance_def try_construct_builder Builder_env_def Builder_app_def set_environment_def)

theorem post_build_hooks_frame_witness:
  "build_needs_json example_accepts example_app None example_world = Inr example_world
   \<and> build_needs_id_json example_accepts
        (example_app\<lparr>app_env := example_env\<lparr>env_config := example_config\<lparr>build_json_per_id := True\<rparr>\<rparr>,
                      app_builder := example_builder NeedsIdBuilder\<rparr>) None example_world
      = Inr example_world
   \<and> build_needumls_pumls example_app None example_world = Inr example_world
   \<and> build_needs_json example_accepts
        (example_app\<lparr>app_env := example_env\<lparr>env_config := example_config\<lparr>build_json := True\<rparr>\<rparr>\<rparr>)
        None example_world
      = finish_NeedsBuilder example_accepts
          \<lparr>cls = NeedsBuilder,
           env = example_env\<lparr>env_config := example_config\<lparr>build_json := True\<rparr>\<rparr>,
           outdir = ''out'', srcdir = ''src''\<rparr> example_world"
proof -
  let ?a2 = "example_app\<lparr>app_env := example_env\<lparr>env_config := example_config\<lparr>build_json_per_id := True\<rparr>\<rparr>,
                      app_builder := example_builder NeedsIdBuilder\<rparr>"
  let ?a4 = "example_app\<lparr>app_env := example_env\<lparr>env_config := example_config\<lparr>build_json := True\<rparr>\<rparr>\<rparr>"
  have 1: "build_needs_json example_accepts example_app None example_world = Inr example_world"
    using post_build_hooks_frame [of example_accepts example_app None example_world]
    by (simp add: example_app_def example_env_def example_config_def)
  have 2: "build_needs_id_json example_accepts ?a2 None example_world = Inr example_world"
    using post_build_hooks_frame [of example_accepts ?a2 None example_world]
    by (simp add: example_app_def example_builder_def)
  have 3: "build_needumls_pumls example_app None example_world = Inr example_world"
    using post_build_hooks_frame [of example_accepts example_app None example_world]
    by (simp add: example_app_def example_env_def example_config_def truthy_str_def)
  have 4: "build_needs_json example_accepts ?a4 None example_world
      = finish_NeedsBuilder example_accepts
          \<lparr>cls = NeedsBuilder,
           env = example_env\<lparr>env_config := example_config\<lparr>build_json := True\<rparr>\<rparr>,
           outdir = ''out'', srcdir = ''src''\<rparr> example_world"
    using post_build_hooks_frame [of example_accepts ?a4 None example_world]
    by (simp add: example_app_def example_builder_def)
  from 1 2 3 4 show ?thesis by (intro conjI)
qed

end
